theory Spec2Isabelle
  imports Complex_Main "HOL-Library.Multiset"
begin

section \<open>JavaScript numbers and request values\<close>

text \<open>
  The server stores balances, share counts, average costs and volumes as JavaScript
  numbers. A number is modelled as a rational, one of the two infinities, or NaN.
  Arithmetic on finite values is exact: the rounding of binary64, overflow to an infinity
  and the sign of zero are not represented. What is represented is everything the handlers
  branch on: NaN makes every comparison false, a division by zero gives an infinity or NaN.
\<close>

datatype jsnum = Num rat | PInf | NInf | NaN

fun jsneg :: "jsnum \<Rightarrow> jsnum" where
  "jsneg (Num a) = Num (- a)"
| "jsneg PInf = NInf"
| "jsneg NInf = PInf"
| "jsneg NaN = NaN"

fun jsadd :: "jsnum \<Rightarrow> jsnum \<Rightarrow> jsnum" where
  "jsadd (Num a) (Num b) = Num (a + b)"
| "jsadd NaN _ = NaN"
| "jsadd _ NaN = NaN"
| "jsadd PInf NInf = NaN"
| "jsadd NInf PInf = NaN"
| "jsadd PInf _ = PInf"
| "jsadd _ PInf = PInf"
| "jsadd NInf _ = NInf"
| "jsadd _ NInf = NInf"

definition jssub :: "jsnum \<Rightarrow> jsnum \<Rightarrow> jsnum" where
  "jssub a b = jsadd a (jsneg b)"

text \<open>The sign of a product or quotient with an infinite operand; a zero counts as \<open>+0\<close>.\<close>

definition signed_inf :: "bool \<Rightarrow> jsnum" where
  "signed_inf negative = (if negative then NInf else PInf)"

fun jsmul :: "jsnum \<Rightarrow> jsnum \<Rightarrow> jsnum" where
  "jsmul (Num a) (Num b) = Num (a * b)"
| "jsmul NaN _ = NaN"
| "jsmul _ NaN = NaN"
| "jsmul (Num a) PInf = (if a = 0 then NaN else signed_inf (a < 0))"
| "jsmul (Num a) NInf = (if a = 0 then NaN else signed_inf (0 < a))"
| "jsmul PInf (Num b) = (if b = 0 then NaN else signed_inf (b < 0))"
| "jsmul NInf (Num b) = (if b = 0 then NaN else signed_inf (0 < b))"
| "jsmul PInf PInf = PInf"
| "jsmul NInf NInf = PInf"
| "jsmul PInf NInf = NInf"
| "jsmul NInf PInf = NInf"

fun jsdiv :: "jsnum \<Rightarrow> jsnum \<Rightarrow> jsnum" where
  "jsdiv (Num a) (Num b) =
     (if b \<noteq> 0 then Num (a / b)
      else if a = 0 then NaN
      else signed_inf (a < 0))"
| "jsdiv NaN _ = NaN"
| "jsdiv _ NaN = NaN"
| "jsdiv (Num a) _ = Num 0"
| "jsdiv PInf (Num b) = signed_inf (b < 0)"
| "jsdiv NInf (Num b) = signed_inf (\<not> b < 0)"
| "jsdiv _ _ = NaN"

text \<open>\<open>a < b\<close> on numbers: false as soon as one side is NaN.\<close>

fun jslt :: "jsnum \<Rightarrow> jsnum \<Rightarrow> bool" where
  "jslt (Num a) (Num b) = (a < b)"
| "jslt NaN _ = False"
| "jslt _ NaN = False"
| "jslt NInf b = (b \<noteq> NInf)"
| "jslt a PInf = (a \<noteq> PInf)"
| "jslt _ _ = False"

definition jsgt :: "jsnum \<Rightarrow> jsnum \<Rightarrow> bool" where
  "jsgt a b = jslt b a"

text \<open>\<open>a <= b\<close> is \<open>!(b < a)\<close> unless an operand is NaN, and false then.\<close>

definition jsle :: "jsnum \<Rightarrow> jsnum \<Rightarrow> bool" where
  "jsle a b = (a \<noteq> NaN \<and> b \<noteq> NaN \<and> \<not> jslt b a)"

definition jsge :: "jsnum \<Rightarrow> jsnum \<Rightarrow> bool" where
  "jsge a b = jsle b a"

text \<open>\<open>Math.floor\<close> leaves NaN and the infinities as they are.\<close>

fun Math_floor :: "jsnum \<Rightarrow> jsnum" where
  "Math_floor (Num a) = Num (of_int \<lfloor>a\<rfloor>)"
| "Math_floor x = x"

text \<open>
  \<open>Math.round\<close> rounds to the nearest integer, a tie going up. The two places that call
  it pass a finite value, so it is given on rationals.
\<close>

definition Math_round :: "rat \<Rightarrow> int" where
  "Math_round x = \<lfloor>x + 1 / 2\<rfloor>"

text \<open>
  The \<open>amount\<close> field of a parsed JSON body. \<open>Undefined\<close> is a field the body does not
  have. Strings, arrays and objects are not represented: their conversion to a number
  goes through the parsing of decimal literals, and \<open>+=\<close> concatenates with a string.
\<close>

datatype jsval = Undefined | Null | Bool bool | Number jsnum

fun ToNumber :: "jsval \<Rightarrow> jsnum" where
  "ToNumber Undefined = NaN"
| "ToNumber Null = Num 0"
| "ToNumber (Bool b) = Num (if b then 1 else 0)"
| "ToNumber (Number n) = n"

section \<open>The in-memory database\<close>

type_synonym uuid = string

text \<open>
  A market as \<open>generateMarkets\<close> pushes it. \<open>yes\<close> and \<open>no\<close> are integers: every write
  to them is a \<open>Math.floor\<close>, a \<open>Math.round\<close> or \<open>100 - yes\<close> of integers. The
  presentation fields \<open>cat\<close>, \<open>catName\<close>, \<open>icon\<close>, \<open>color\<close> and \<open>days\<close> are written
  once and read by no handler below; they are left out.
\<close>

record market =
  mid :: int
  title :: string
  yes :: int
  no :: int
  vol :: jsnum
  musers :: int
  history :: "int list"
  lastUpdate :: nat

record user =
  uid :: uuid
  username :: string
  email :: string
  password :: string
  balance :: jsnum
  created :: nat
  wins :: nat
  losses :: nat

record position =
  pid :: uuid
  marketId :: int
  ptitle :: string
  side :: string
  shares :: jsnum
  avg :: jsnum
  openedAt :: nat

record trade =
  t_id :: uuid
  t_userId :: uuid
  t_marketId :: int
  t_side :: string
  t_shares :: jsnum
  t_price :: int
  t_amount :: jsval
  t_timestamp :: nat

text \<open>
  \<open>db.users\<close> is a \<open>Map\<close> from user id to user, iterated in insertion order; every entry
  is stored under the \<open>id\<close> of its value, so it is the list of its values. \<open>db.positions\<close>
  maps a user id to that user's array of positions. \<open>db.sessions\<close> and \<open>db.orderBook\<close>
  are never read.
\<close>

record db =
  users :: "user list"
  markets :: "market list"
  trades :: "trade list"
  positions :: "uuid \<rightharpoonup> position list"

text \<open>\<open>db.users.get(id)\<close> and \<open>db.users.set(user.id, user)\<close>.\<close>

definition users_get :: "uuid \<Rightarrow> user list \<Rightarrow> user option" where
  "users_get i us = find (\<lambda>u. uid u = i) us"

fun users_set :: "user \<Rightarrow> user list \<Rightarrow> user list" where
  "users_set u [] = [u]"
| "users_set u (v # vs) = (if uid v = uid u then u # vs else v # users_set u vs)"

text \<open>
  \<open>db.markets[marketId]\<close> for an integer \<open>marketId\<close>: \<open>undefined\<close> outside the array.
  A \<open>marketId\<close> that is not an integer number (a fraction, a string) is not represented.
\<close>

definition markets_at :: "market list \<Rightarrow> int \<Rightarrow> market option" where
  "markets_at ms i = (if 0 \<le> i \<and> i < int (length ms) then Some (ms ! nat i) else None)"

text \<open>\<open>db.positions.get(id) || []\<close>\<close>

definition positions_of :: "db \<Rightarrow> uuid \<Rightarrow> position list" where
  "positions_of d i = (case positions d i of None \<Rightarrow> [] | Some ps \<Rightarrow> ps)"

text \<open>The database when the server starts to listen: the generated markets, nothing else.\<close>

definition started :: "market list \<Rightarrow> db" where
  "started ms = \<lparr>users = [], markets = ms, trades = [], positions = Map.empty\<rparr>"

section \<open>Price engine\<close>

text \<open>
  One step of \<open>updatePrices\<close> on one market. \<open>r\<close> is the value \<open>Math.random()\<close> returned
  for this market and \<open>now\<close> the clock. \<open>history.shift()\<close> on an empty array removes
  nothing, as \<open>tl\<close> does.
\<close>

definition updatePrice :: "nat \<Rightarrow> rat \<Rightarrow> market \<Rightarrow> market" where
  "updatePrice now r m =
     (let change = (r - 1 / 2) * 3;
          y = max 1 (min 99 (Math_round (of_int (yes m) + change)))
      in m\<lparr>yes := y, no := 100 - y, history := tl (history m) @ [y], lastUpdate := now\<rparr>)"

text \<open>\<open>updatePrices\<close>: the \<open>i\<close>-th market of \<open>db.markets\<close> gets the \<open>i\<close>-th random draw.\<close>

definition updatePrices :: "nat \<Rightarrow> (nat \<Rightarrow> rat) \<Rightarrow> db \<Rightarrow> db" where
  "updatePrices now rnd d =
     d\<lparr>markets := map (\<lambda>(i, m). updatePrice now (rnd i) m) (enumerate 0 (markets d))\<rparr>"

text \<open>\<open>N\<close> firings of the timer, each with its clock value and its random draws.\<close>

fun ticks :: "(nat \<times> (nat \<Rightarrow> rat)) list \<Rightarrow> db \<Rightarrow> db" where
  "ticks [] d = d"
| "ticks ((now, rnd) # ts) d = ticks ts (updatePrices now rnd d)"

section \<open>API routes\<close>

text \<open>
  A handler returns an \<open>{error, status}\<close> object or its result. \<open>TypeError\<close> is the
  exception thrown on reading a property of \<open>undefined\<close>; the server answers it with
  status 500.
\<close>

datatype error =
    Missing_fields | Username_too_short | Password_too_short | User_already_exists
  | Unauthorized | Invalid_side | Invalid_amount | Market_not_found | Position_not_found
  | TypeError

text \<open>
  \<open>getUser\<close>: \<open>auth\<close> is the user id \<open>verifyToken\<close> extracts from the request's bearer
  token, \<open>None\<close> when the header is missing or the token is refused.
\<close>

definition getUser :: "uuid option \<Rightarrow> db \<Rightarrow> user option" where
  "getUser auth d =
     (case auth of
        None \<Rightarrow> None
      | Some userId \<Rightarrow> if userId = [] then None else users_get userId (users d))"

subsection \<open>POST /api/register\<close>

record registered =
  r_id :: uuid
  r_username :: string
  r_email :: string
  r_balance :: jsnum

text \<open>
  \<open>newId\<close> is the value of \<open>crypto.randomUUID()\<close>, \<open>digest\<close> the value of
  \<open>hashPassword(password)\<close> and \<open>now\<close> the clock. The three body fields are strings, a
  missing one being the empty string. The session token of the answer is left out.
\<close>

definition register ::
  "uuid \<Rightarrow> string \<Rightarrow> nat \<Rightarrow> string \<Rightarrow> string \<Rightarrow> string \<Rightarrow> db \<Rightarrow> (error + registered) \<times> db" where
  "register newId digest now uname mail pw d =
     (if uname = [] \<or> mail = [] \<or> pw = [] then (Inl Missing_fields, d)
      else if length uname < 3 then (Inl Username_too_short, d)
      else if length pw < 6 then (Inl Password_too_short, d)
      else if find (\<lambda>u. email u = mail \<or> username u = uname) (users d) \<noteq> None
        then (Inl User_already_exists, d)
      else
        let u = \<lparr>uid = newId, username = uname, email = mail, password = digest,
                 balance = Num 10000, created = now, wins = 0, losses = 0\<rparr>
        in (Inr \<lparr>r_id = newId, r_username = uname, r_email = mail, r_balance = balance u\<rparr>,
            d\<lparr>users := users_set u (users d), positions := (positions d)(newId \<mapsto> [])\<rparr>))"

subsection \<open>POST /api/trade\<close>

record trade_result =
  tr_balance :: jsnum
  tr_shares :: jsnum

text \<open>The first element that satisfies \<open>P\<close> is replaced by its image under \<open>f\<close>.\<close>

fun update_first :: "('a \<Rightarrow> bool) \<Rightarrow> ('a \<Rightarrow> 'a) \<Rightarrow> 'a list \<Rightarrow> 'a list" where
  "update_first P f [] = []"
| "update_first P f (x # xs) = (if P x then f x # xs else x # update_first P f xs)"

text \<open>
  Lines 213 to 229 of the handler: the position found for \<open>(marketId, side)\<close> is merged
  in place, otherwise a new position is pushed.
\<close>

definition merge_position :: "int \<Rightarrow> jsnum \<Rightarrow> position \<Rightarrow> position" where
  "merge_position price sh existing =
     (let totalShares = jsadd (shares existing) sh
      in existing\<lparr>avg := jsdiv (jsadd (jsmul (avg existing) (shares existing))
                                      (jsmul (Num (of_int price)) sh)) totalShares,
                  shares := totalShares\<rparr>)"

definition upsert_position ::
  "uuid \<Rightarrow> nat \<Rightarrow> string \<Rightarrow> int \<Rightarrow> string \<Rightarrow> int \<Rightarrow> jsnum \<Rightarrow> position list \<Rightarrow> position list" where
  "upsert_position newId now mtitle mkt sd price sh ps =
     (case find (\<lambda>p. marketId p = mkt \<and> side p = sd) ps of
        Some existing \<Rightarrow>
          update_first (\<lambda>p. marketId p = mkt \<and> side p = sd) (merge_position price sh) ps
      | None \<Rightarrow>
          ps @ [\<lparr>pid = newId, marketId = mkt, ptitle = take 40 mtitle, side = sd,
                 shares = sh, avg = Num (of_int price), openedAt = now\<rparr>])"

text \<open>
  The handler. \<open>posId\<close> and \<open>tradeId\<close> are the values of the two \<open>crypto.randomUUID()\<close>
  calls, \<open>now\<close> the clock; \<open>mkt\<close>, \<open>sd\<close> and \<open>amount\<close> are the body's \<open>marketId\<close>,
  \<open>side\<close> and \<open>amount\<close>. When \<open>db.positions\<close> has no array for the user, the handler
  works on a fresh array that is not stored.
\<close>

definition trade ::
  "uuid \<Rightarrow> uuid \<Rightarrow> nat \<Rightarrow> uuid option \<Rightarrow> int \<Rightarrow> string \<Rightarrow> jsval \<Rightarrow> db \<Rightarrow> (error + trade_result) \<times> db" where
  "trade posId tradeId now auth mkt sd amount d =
     (case getUser auth d of
        None \<Rightarrow> (Inl Unauthorized, d)
      | Some user \<Rightarrow>
          if sd \<noteq> ''YES'' \<and> sd \<noteq> ''NO'' then (Inl Invalid_side, d)
          else if jsle (ToNumber amount) (Num 0) \<or> jsgt (ToNumber amount) (balance user)
            then (Inl Invalid_amount, d)
          else
            (case markets_at (markets d) mkt of
               None \<Rightarrow> (Inl Market_not_found, d)
             | Some market \<Rightarrow>
                 let price = (if sd = ''YES'' then yes market else no market);
                     sh = Math_floor (jsdiv (ToNumber amount)
                                            (jsdiv (Num (of_int price)) (Num 100)));
                     user' = user\<lparr>balance := jssub (balance user) (ToNumber amount)\<rparr>;
                     market' = market\<lparr>vol := jsadd (vol market) (ToNumber amount),
                                     musers := musers market + 1\<rparr>;
                     positions' =
                       (case positions d (uid user) of
                          None \<Rightarrow> positions d
                        | Some ps \<Rightarrow>
                            (positions d)(uid user \<mapsto>
                               upsert_position posId now (title market) mkt sd price sh ps));
                     t = \<lparr>t_id = tradeId, t_userId = uid user, t_marketId = mkt, t_side = sd,
                          t_shares = sh, t_price = price, t_amount = amount,
                          t_timestamp = now\<rparr>
                 in (Inr \<lparr>tr_balance = balance user', tr_shares = sh\<rparr>,
                     d\<lparr>users := users_set user' (users d),
                       markets := (markets d)[nat mkt := market'],
                       trades := trades d @ [t],
                       positions := positions'\<rparr>)))"

subsection \<open>POST /api/sell\<close>

record sell_result =
  sr_balance :: jsnum
  sr_payout :: jsnum

fun findIndex :: "('a \<Rightarrow> bool) \<Rightarrow> 'a list \<Rightarrow> nat option" where
  "findIndex P [] = None"
| "findIndex P (x # xs) = (if P x then Some 0 else map_option Suc (findIndex P xs))"

text \<open>\<open>positions.splice(idx, 1)\<close>.\<close>

definition splice1 :: "nat \<Rightarrow> 'a list \<Rightarrow> 'a list" where
  "splice1 idx xs = take idx xs @ drop (Suc idx) xs"

text \<open>
  The handler. A position whose \<open>marketId\<close> is outside \<open>db.markets\<close> makes the read of
  \<open>market.yes\<close> throw before anything is written.
\<close>

definition sell :: "uuid option \<Rightarrow> uuid \<Rightarrow> db \<Rightarrow> (error + sell_result) \<times> db" where
  "sell auth positionId d =
     (case getUser auth d of
        None \<Rightarrow> (Inl Unauthorized, d)
      | Some user \<Rightarrow>
          let ps = positions_of d (uid user)
          in (case findIndex (\<lambda>p. pid p = positionId) ps of
                None \<Rightarrow> (Inl Position_not_found, d)
              | Some idx \<Rightarrow>
                  let pos = ps ! idx
                  in (case markets_at (markets d) (marketId pos) of
                        None \<Rightarrow> (Inl TypeError, d)
                      | Some market \<Rightarrow>
                          let currentPrice = (if side pos = ''YES'' then yes market else no market);
                              payout = jsmul (shares pos)
                                             (jsdiv (Num (of_int currentPrice)) (Num 100));
                              won = jsgt (Num (of_int currentPrice)) (avg pos);
                              user' = user\<lparr>balance := jsadd (balance user) payout,
                                          wins := (if won then wins user + 1 else wins user),
                                          losses := (if won then losses user else losses user + 1)\<rparr>
                          in (Inr \<lparr>sr_balance = balance user', sr_payout = payout\<rparr>,
                              d\<lparr>users := users_set user' (users d),
                                positions := (positions d)(uid user \<mapsto> splice1 idx ps)\<rparr>))))"

subsection \<open>GET /api/leaderboard\<close>

record entry =
  e_username :: string
  e_balance :: jsnum
  e_wins :: nat
  e_winRate :: int

record ranked = entry +
  rank :: nat

text \<open>
  The \<open>reduce\<close> over a user's positions, from the accumulator \<open>a\<close>. A position whose
  market is missing makes the callback throw.
\<close>

fun positions_value :: "market list \<Rightarrow> jsnum \<Rightarrow> position list \<Rightarrow> error + jsnum" where
  "positions_value ms a [] = Inr a"
| "positions_value ms a (p # ps) =
     (case markets_at ms (marketId p) of
        None \<Rightarrow> Inl TypeError
      | Some m \<Rightarrow>
          positions_value ms
            (jsadd a (jsmul (shares p)
                            (jsdiv (Num (of_int (if side p = ''YES'' then yes m else no m)))
                                   (Num 100))))
            ps)"

definition winRate :: "nat \<Rightarrow> nat \<Rightarrow> int" where
  "winRate w l =
     (if w + l > 0 then Math_round (of_nat w / of_nat (w + l) * 100) else 0)"

definition leaderboard_entry :: "db \<Rightarrow> user \<Rightarrow> error + entry" where
  "leaderboard_entry d u =
     (case positions_value (markets d) (Num 0) (positions_of d (uid u)) of
        Inl e \<Rightarrow> Inl e
      | Inr v \<Rightarrow>
          Inr \<lparr>e_username = username u, e_balance = jsadd (balance u) v,
               e_wins = wins u, e_winRate = winRate (wins u) (losses u)\<rparr>)"

text \<open>The \<open>map\<close> over the users stops at the first callback that throws.\<close>

fun leaderboard_entries :: "db \<Rightarrow> user list \<Rightarrow> error + entry list" where
  "leaderboard_entries d [] = Inr []"
| "leaderboard_entries d (u # us) =
     (case leaderboard_entry d u of
        Inl e \<Rightarrow> Inl e
      | Inr x \<Rightarrow>
          (case leaderboard_entries d us of
             Inl e \<Rightarrow> Inl e
           | Inr xs \<Rightarrow> Inr (x # xs)))"

text \<open>
  \<open>Array.prototype.sort\<close> with the comparator \<open>(a, b) => b.balance - a.balance\<close>. The
  sort is stable and takes a comparator result of NaN for zero; it is written as a stable
  insertion sort, where an element moves behind another only on a positive result. With a
  comparator that is not a consistent order (a NaN balance) the language leaves the
  resulting order open, and the model then gives the order of this insertion sort.
\<close>

definition by_balance_desc :: "entry \<Rightarrow> entry \<Rightarrow> jsnum" where
  "by_balance_desc a b = jssub (e_balance b) (e_balance a)"

fun insert_sorted :: "('a \<Rightarrow> 'a \<Rightarrow> jsnum) \<Rightarrow> 'a \<Rightarrow> 'a list \<Rightarrow> 'a list" where
  "insert_sorted c x [] = [x]"
| "insert_sorted c x (y # ys) =
     (if jsgt (c x y) (Num 0) then y # insert_sorted c x ys else x # y # ys)"

definition array_sort :: "('a \<Rightarrow> 'a \<Rightarrow> jsnum) \<Rightarrow> 'a list \<Rightarrow> 'a list" where
  "array_sort c xs = foldr (insert_sorted c) xs []"

definition with_rank :: "nat \<times> entry \<Rightarrow> ranked" where
  "with_rank ix =
     \<lparr>e_username = e_username (snd ix), e_balance = e_balance (snd ix),
      e_wins = e_wins (snd ix), e_winRate = e_winRate (snd ix), rank = fst ix + 1\<rparr>"

text \<open>
  The handler is declared without parameters: the request, and with it any \<open>limit\<close> of the
  query string, is passed by the server and not read. \<open>limit\<close> stands for it here.
\<close>

definition leaderboard :: "jsval \<Rightarrow> db \<Rightarrow> error + ranked list" where
  "leaderboard limit d =
     (case leaderboard_entries d (users d) of
        Inl e \<Rightarrow> Inl e
      | Inr es \<Rightarrow> Inr (map with_rank (enumerate 0 (take 100 (array_sort by_balance_desc es)))))"

section \<open>Runs of the server\<close>

text \<open>
  The requests that change the database, with the values the handler draws (the UUIDs,
  the password digest, the clock), and the firing of the price timer with its random
  draws.
\<close>

datatype request =
    Register uuid string nat string string string
  | Trade uuid uuid nat "uuid option" int string jsval
  | Sell "uuid option" uuid
  | Tick nat "nat \<Rightarrow> rat"

fun step :: "request \<Rightarrow> db \<Rightarrow> db" where
  "step (Register newId digest now uname mail pw) d =
     snd (register newId digest now uname mail pw d)"
| "step (Trade posId tradeId now auth mkt sd amount) d =
     snd (trade posId tradeId now auth mkt sd amount d)"
| "step (Sell auth positionId) d = snd (sell auth positionId d)"
| "step (Tick now rnd) d = updatePrices now rnd d"

fun run :: "request list \<Rightarrow> db \<Rightarrow> db" where
  "run [] d = d"
| "run (r # rs) d = run rs (step r d)"

text \<open>
  The market table as the price engine has left it when a request arrives: between two
  requests of a user the timer may have fired any number of times.
\<close>

definition reprice :: "market list \<Rightarrow> db \<Rightarrow> db" where
  "reprice ms d = d\<lparr>markets := ms\<rparr>"

section \<open>Predicates of the properties\<close>

definition price_ok :: "market \<Rightarrow> bool" where
  "price_ok m = (1 \<le> yes m \<and> yes m \<le> 99 \<and> no m + yes m = 100)"

text \<open>
  A share count that is a non-negative integer, a balance that is a non-negative finite
  number, and a request whose \<open>amount\<close>, if it has one, converts to a number and not to NaN.
\<close>

definition whole :: "jsnum \<Rightarrow> bool" where
  "whole n = (case n of Num s \<Rightarrow> 0 \<le> s \<and> of_int \<lfloor>s\<rfloor> = s | _ \<Rightarrow> False)"

definition cash_ok :: "user \<Rightarrow> bool" where
  "cash_ok u = (case balance u of Num b \<Rightarrow> 0 \<le> b | _ \<Rightarrow> False)"

fun amount_is_number :: "request \<Rightarrow> bool" where
  "amount_is_number (Trade posId tradeId now auth mkt sd amount) = (ToNumber amount \<noteq> NaN)"
| "amount_is_number _ = True"

definition position_ok :: "nat \<Rightarrow> position \<Rightarrow> bool" where
  "position_ok n p = (whole (shares p) \<and> 0 \<le> marketId p \<and> marketId p < int n)"

definition sound :: "db \<Rightarrow> bool" where
  "sound d =
     ((\<forall>u \<in> set (users d). cash_ok u)
      \<and> (\<forall>m \<in> set (markets d). price_ok m)
      \<and> (\<forall>u \<in> set (users d). \<forall>p \<in> set (positions_of d (uid u)).
            position_ok (length (markets d)) p))"

text \<open>
  For stating the order of the leaderboard: an entry with a finite balance, and an entry
  whose balance is not below that of another (\<open>a.balance >= b.balance\<close>).
\<close>

definition finite_balance :: "entry \<Rightarrow> bool" where
  "finite_balance e = (case e_balance e of Num b \<Rightarrow> True | _ \<Rightarrow> False)"


section \<open>A small database\<close>

text \<open>
  One market at 50 cents, and the state after \<open>alice\<close> has registered. The properties
  below are run on them.
\<close>

definition market0 :: market where
  "market0 = \<lparr>mid = 0, title = ''Will Senate flip by 2025?'', yes = 50, no = 50,
               vol = Num 100000, musers = 100, history = replicate 30 50, lastUpdate = 0\<rparr>"

text \<open>The market of \<open>db0\<close> after its price has moved to 25 cents.\<close>

definition market0_at_25 :: market where
  "market0_at_25 = market0\<lparr>yes := 25, no := 75\<rparr>"

definition db0 :: db where
  "db0 = started [market0]"

definition alice :: user where
  "alice = \<lparr>uid = ''u1'', username = ''alice'', email = ''alice@example.org'',
             password = ''digest'', balance = Num 10000, created = 0, wins = 0, losses = 0\<rparr>"

definition db1 :: db where
  "db1 = snd (register ''u1'' ''digest'' 0 ''alice'' ''alice@example.org'' ''secret'' db0)"

definition position1 :: position where
  "position1 = \<lparr>pid = ''p1'', marketId = 0, ptitle = ''Will Senate flip by 2025?'',
                 side = ''YES'', shares = Num 40, avg = Num 50, openedAt = 1\<rparr>"

definition db2 :: db where
  "db2 = snd (trade ''p1'' ''t1'' 1 (Some ''u1'') 0 ''YES'' (Number (Num 20)) db1)"






section \<open>Lookup and update of users\<close>

lemma users_get_uid: "users_get i us = Some u \<Longrightarrow> uid u = i"
  by (induction us) (auto simp: users_get_def split: if_splits)

lemma users_get_users_set: "users_get (uid u) (users_set u us) = Some u"
  by (induction us) (auto simp: users_get_def)

lemma getUser_Some:
  "getUser auth d = Some u \<Longrightarrow> auth = Some (uid u) \<and> uid u \<noteq> [] \<and> users_get (uid u) (users d) = Some u"
  by (auto simp: getUser_def split: option.splits if_splits dest: users_get_uid)

lemma getUser_after_set:
  assumes "getUser auth d = Some u" and "uid u' = uid u"
      and "users d' = users_set u' (users d)"
  shows "getUser auth d' = Some u'"
proof -
  have a: "auth = Some (uid u')" and n: "uid u' \<noteq> []"
    using getUser_Some [OF assms(1)] assms(2) by simp_all
  have "users_get (uid u') (users d') = Some u'"
    by (simp only: assms(3) users_get_users_set)
  then show ?thesis
    using n by (simp add: getUser_def a)
qed

lemma db1_eq:
  "db1 = \<lparr>users = [alice], markets = [market0], trades = [], positions = [''u1'' \<mapsto> []]\<rparr>"
  by (simp add: db1_def db0_def started_def register_def alice_def Let_def)

lemma getUser_db1: "getUser (Some ''u1'') db1 = Some alice"
  by (simp add: db1_eq getUser_def users_get_def alice_def)



section \<open>Price engine: properties\<close>

lemma updatePrice_price_ok: "price_ok (updatePrice now r m)"
  by (simp add: updatePrice_def price_ok_def Let_def)

lemma updatePrices_price_ok:
  "m \<in> set (markets (updatePrices now rnd d)) \<Longrightarrow> price_ok m"
  by (auto simp: updatePrices_def updatePrice_price_ok)

lemma ticks_price_ok:
  "\<forall>m \<in> set (markets d). price_ok m \<Longrightarrow> \<forall>m \<in> set (markets (ticks ts d)). price_ok m"
proof (induction ts arbitrary: d)
  case Nil
  then show ?case by simp
next
  case (Cons t ts)
  obtain now rnd where t: "t = (now, rnd)" by (cases t)
  have "\<forall>m \<in> set (markets (updatePrices now rnd d)). price_ok m"
    using updatePrices_price_ok by blast
  then show ?case using Cons.IH t by simp
qed

text \<open>
  C6. Whatever the random draws, after each of \<open>N \<ge> 1\<close> ticks every market has its
  \<open>yes\<close> price in \<open>[1, 99]\<close> and \<open>no + yes = 100\<close>, when every \<open>yes\<close> price was in
  \<open>[1, 99]\<close> before the first tick. (The clamp gives the range even without that.)
\<close>

theorem prices_stay_in_range_and_complementary:
  assumes "\<forall>m \<in> set (markets d). 1 \<le> yes m \<and> yes m \<le> 99"
      and "ts \<noteq> []"
  shows "\<forall>m \<in> set (markets (ticks ts d)). 1 \<le> yes m \<and> yes m \<le> 99 \<and> no m + yes m = 100"
proof -
  obtain now rnd ts' where ts: "ts = (now, rnd) # ts'"
    using assms(2) by (cases ts) auto
  have "\<forall>m \<in> set (markets (updatePrices now rnd d)). price_ok m"
    using updatePrices_price_ok by blast
  then have "\<forall>m \<in> set (markets (ticks ts' (updatePrices now rnd d))). price_ok m"
    by (rule ticks_price_ok)
  then show ?thesis by (simp add: ts price_ok_def)
qed

theorem prices_stay_in_range_and_complementary_witness:
  "list_all (\<lambda>m. 1 \<le> yes m \<and> yes m \<le> 99) (markets db0)
   \<and> [(1::nat, \<lambda>i::nat. 0::rat), (2, \<lambda>i. 9 / 10)] \<noteq> []
   \<and> list_all (\<lambda>m. 1 \<le> yes m \<and> yes m \<le> 99 \<and> no m + yes m = 100)
         (markets (ticks [(1, \<lambda>i. 0), (2, \<lambda>i. 9 / 10)] db0))"
proof -
  have h1: "\<forall>m \<in> set (markets db0). 1 \<le> yes m \<and> yes m \<le> 99"
    by (simp add: db0_def started_def market0_def)
  have h2: "[(1::nat, \<lambda>i::nat. 0::rat), (2, \<lambda>i. 9 / 10)] \<noteq> []"
    by simp
  show ?thesis
    unfolding list_all_iff
    by (intro conjI h1 h2 prices_stay_in_range_and_complementary [OF h1 h2])
qed

section \<open>Buying: properties\<close>




lemma trade_accepted_users:
  assumes "getUser auth d = Some user"
      and "sd = ''YES'' \<or> sd = ''NO''"
      and "\<not> jsle (ToNumber amount) (Num 0)" "\<not> jsgt (ToNumber amount) (balance user)"
      and "markets_at (markets d) mkt = Some market"
  shows "users (snd (trade posId tradeId now auth mkt sd amount d)) =
     users_set (user\<lparr>balance := jssub (balance user) (ToNumber amount)\<rparr>) (users d)"
  using assms by (cases "sd = ''YES''") (simp_all add: trade_def Let_def)





section \<open>Selling: properties\<close>

lemma db2_eq:
  "db2 = \<lparr>users = [alice\<lparr>balance := Num 9980\<rparr>],
          markets = [market0\<lparr>vol := Num 100020, musers := 101\<rparr>],
          trades = [\<lparr>t_id = ''t1'', t_userId = ''u1'', t_marketId = 0, t_side = ''YES'',
                     t_shares = Num 40, t_price = 50, t_amount = Number (Num 20),
                     t_timestamp = 1\<rparr>],
          positions = [''u1'' \<mapsto> [position1]]\<rparr>"
  by (simp add: db2_def trade_def db1_eq getUser_def users_get_def alice_def markets_at_def
      market0_def jsle_def jsgt_def jssub_def upsert_position_def position1_def Let_def)

lemma getUser_db2: "getUser (Some ''u1'') db2 = Some (alice\<lparr>balance := Num 9980\<rparr>)"
  by (simp add: db2_eq getUser_def users_get_def alice_def)

lemma positions_db2: "positions db2 (uid (alice\<lparr>balance := Num 9980\<rparr>)) = Some [position1]"
  by (simp add: db2_eq alice_def)

lemma find_position1: "find (\<lambda>q. pid q = ''p1'') [position1] = Some position1"
  by (simp add: position1_def)

lemma markets_at_db2:
  "markets_at (markets db2) (marketId position1) =
     Some (market0\<lparr>vol := Num 100020, musers := 101\<rparr>)"
  by (simp add: db2_eq markets_at_def position1_def)

lemma price_db2:
  "50 = (if side position1 = ''YES'' then yes (market0\<lparr>vol := Num 100020, musers := 101\<rparr>)
         else no (market0\<lparr>vol := Num 100020, musers := 101\<rparr>))"
  by (simp add: position1_def market0_def)

lemma findIndex_Some:
  "findIndex P xs = Some i \<Longrightarrow> i < length xs \<and> P (xs ! i) \<and> find P xs = Some (xs ! i)"
proof (induction xs arbitrary: i)
  case Nil
  then show ?case by simp
next
  case (Cons x xs)
  then show ?case by (cases "P x") auto
qed

lemma find_findIndex:
  "find P xs = Some x \<Longrightarrow> \<exists>i. findIndex P xs = Some i \<and> xs ! i = x"
proof (induction xs)
  case Nil
  then show ?case by simp
next
  case (Cons y xs)
  then show ?case by (cases "P y") auto
qed


lemma sell_accepted:
  assumes "getUser auth d = Some user"
      and "positions d (uid user) = Some ps"
      and "findIndex (\<lambda>q. pid q = positionId) ps = Some idx"
      and "markets_at (markets d) (marketId (ps ! idx)) = Some market"
  shows "sell auth positionId d =
    (Inr \<lparr>sr_balance = jsadd (balance user)
              (jsmul (shares (ps ! idx))
                 (jsdiv (Num (of_int (if side (ps ! idx) = ''YES'' then yes market else no market)))
                        (Num 100))),
          sr_payout = jsmul (shares (ps ! idx))
                 (jsdiv (Num (of_int (if side (ps ! idx) = ''YES'' then yes market else no market)))
                        (Num 100))\<rparr>,
     d\<lparr>users := users_set
          (user\<lparr>balance := jsadd (balance user)
              (jsmul (shares (ps ! idx))
                 (jsdiv (Num (of_int (if side (ps ! idx) = ''YES'' then yes market else no market)))
                        (Num 100))),
            wins := (if jsgt (Num (of_int (if side (ps ! idx) = ''YES'' then yes market else no market)))
                             (avg (ps ! idx)) then wins user + 1 else wins user),
            losses := (if jsgt (Num (of_int (if side (ps ! idx) = ''YES'' then yes market else no market)))
                             (avg (ps ! idx)) then losses user else losses user + 1)\<rparr>)
          (users d),
       positions := (positions d)(uid user \<mapsto> splice1 idx ps)\<rparr>)"
  using assms by (simp add: sell_def positions_of_def Let_def)



text \<open>
  C8. A successful sell increments exactly one counter of the seller: \<open>wins\<close> when the
  current price of the position's side is strictly above its average cost, \<open>losses\<close>
  otherwise. A sale at exactly the average cost is a loss.
\<close>

theorem sell_counts_win_or_loss:
  assumes "getUser auth d = Some user"
      and "positions d (uid user) = Some ps"
      and "find (\<lambda>q. pid q = positionId) ps = Some pos"
      and "markets_at (markets d) (marketId pos) = Some market"
      and "p = (if side pos = ''YES'' then yes market else no market)"
  shows "\<exists>r user'. fst (sell auth positionId d) = Inr r
       \<and> getUser auth (snd (sell auth positionId d)) = Some user'
       \<and> (if jsgt (Num (of_int p)) (avg pos)
          then wins user' = wins user + 1 \<and> losses user' = losses user
          else wins user' = wins user \<and> losses user' = losses user + 1)
       \<and> (avg pos = Num (of_int p) \<longrightarrow>
            wins user' = wins user \<and> losses user' = losses user + 1)"
proof -
  obtain idx where idx: "findIndex (\<lambda>q. pid q = positionId) ps = Some idx" and pos: "ps ! idx = pos"
    using find_findIndex [OF assms(3)] by blast
  have m: "markets_at (markets d) (marketId (ps ! idx)) = Some market"
    using assms(4) pos by simp
  have price: "(if side (ps ! idx) = ''YES'' then yes market else no market) = p"
    using assms(5) pos by simp
  note s = sell_accepted [OF assms(1,2) idx m, unfolded price, unfolded pos]
  define user' where "user' = user\<lparr>balance := jsadd (balance user)
              (jsmul (shares pos) (jsdiv (Num (of_int p)) (Num 100))),
            wins := (if jsgt (Num (of_int p)) (avg pos) then wins user + 1 else wins user),
            losses := (if jsgt (Num (of_int p)) (avg pos) then losses user else losses user + 1)\<rparr>"
  have 1: "fst (sell auth positionId d) =
     Inr \<lparr>sr_balance = jsadd (balance user) (jsmul (shares pos) (jsdiv (Num (of_int p)) (Num 100))),
          sr_payout = jsmul (shares pos) (jsdiv (Num (of_int p)) (Num 100))\<rparr>"
    by (simp add: s)
  have 2: "getUser auth (snd (sell auth positionId d)) = Some user'"
    unfolding s snd_conv
    by (rule getUser_after_set [OF assms(1)]) (simp_all add: user'_def)
  have 3: "if jsgt (Num (of_int p)) (avg pos)
          then wins user' = wins user + 1 \<and> losses user' = losses user
          else wins user' = wins user \<and> losses user' = losses user + 1"
    by (simp add: user'_def)
  have 4: "avg pos = Num (of_int p) \<longrightarrow>
            wins user' = wins user \<and> losses user' = losses user + 1"
    by (simp add: user'_def jsgt_def)
  show ?thesis using 1 2 3 4 by blast
qed

text \<open>The witness sells at the average cost of the position: a loss.\<close>

theorem sell_counts_win_or_loss_witness:
  "getUser (Some ''u1'') db2 = Some (alice\<lparr>balance := Num 9980\<rparr>)
   \<and> positions db2 ''u1'' = Some [position1]
   \<and> find (\<lambda>q. pid q = ''p1'') [position1] = Some position1
   \<and> avg position1 = Num 50
   \<and> map_option (\<lambda>u. (wins u, losses u))
         (getUser (Some ''u1'') (snd (sell (Some ''u1'') ''p1'' db2))) = Some (0, 1)"
proof -
  have h: "avg position1 = Num 50" by (simp add: position1_def)
  show ?thesis
    using sell_counts_win_or_loss
            [OF getUser_db2 positions_db2 find_position1 markets_at_db2 price_db2]
          getUser_db2 positions_db2 find_position1 h
    by (auto simp: alice_def jsgt_def)
qed

section \<open>Merging buys: properties\<close>

lemma jsadd_commute: "jsadd a b = jsadd b a"
  by (cases a; cases b) simp_all

lemma find_update_first:
  "find P xs = Some x \<Longrightarrow> P (f x) \<Longrightarrow> find P (update_first P f xs) = Some (f x)"
  by (induction xs) auto

lemma find_append_new: "find P xs = None \<Longrightarrow> P x \<Longrightarrow> find P (xs @ [x]) = Some x"
  by (induction xs) auto

lemma find_upsert_position_new:
  assumes "find (\<lambda>q. marketId q = mkt \<and> side q = sd) ps = None"
  shows "find (\<lambda>q. marketId q = mkt \<and> side q = sd)
           (upsert_position newId now mtitle mkt sd price sh ps) =
         Some \<lparr>pid = newId, marketId = mkt, ptitle = take 40 mtitle, side = sd,
               shares = sh, avg = Num (of_int price), openedAt = now\<rparr>"
  using assms by (simp add: upsert_position_def find_append_new)

lemma find_upsert_position_merge:
  assumes "find (\<lambda>q. marketId q = mkt \<and> side q = sd) ps = Some old"
  shows "find (\<lambda>q. marketId q = mkt \<and> side q = sd)
           (upsert_position newId now mtitle mkt sd price sh ps) =
         Some (merge_position price sh old)"
proof -
  have "marketId old = mkt \<and> side old = sd"
    using assms by (auto simp: find_Some_iff)
  then have "marketId (merge_position price sh old) = mkt \<and> side (merge_position price sh old) = sd"
    by (simp add: merge_position_def Let_def)
  then show ?thesis
    using assms by (simp add: upsert_position_def find_update_first)
qed

lemma trade_accepted_positions:
  assumes "getUser auth d = Some user"
      and "sd = ''YES'' \<or> sd = ''NO''"
      and "\<not> jsle (ToNumber amount) (Num 0)" "\<not> jsgt (ToNumber amount) (balance user)"
      and "markets_at (markets d) mkt = Some market"
      and "positions d (uid user) = Some ps"
  shows "positions (snd (trade posId tradeId now auth mkt sd amount d)) (uid user) =
     Some (upsert_position posId now (title market) mkt sd
             (if sd = ''YES'' then yes market else no market)
             (Math_floor (jsdiv (ToNumber amount)
                (jsdiv (Num (of_int (if sd = ''YES'' then yes market else no market))) (Num 100))))
             ps)"
  using assms by (cases "sd = ''YES''") (simp_all add: trade_def Let_def)

text \<open>A buy of a finite amount within the balance, followed from the state it leaves.\<close>

lemma trade_accepted_numeric:
  assumes "getUser auth d = Some user"
      and "sd = ''YES'' \<or> sd = ''NO''"
      and "balance user = Num b" and "0 < a" and "a \<le> b"
      and "markets_at (markets d) mkt = Some market"
      and "positions d (uid user) = Some ps"
  shows "getUser auth (snd (trade posId tradeId now auth mkt sd (Number (Num a)) d)) =
           Some (user\<lparr>balance := Num (b - a)\<rparr>)"
    and "positions (snd (trade posId tradeId now auth mkt sd (Number (Num a)) d)) (uid user) =
     Some (upsert_position posId now (title market) mkt sd
             (if sd = ''YES'' then yes market else no market)
             (Math_floor (jsdiv (Num a)
                (jsdiv (Num (of_int (if sd = ''YES'' then yes market else no market))) (Num 100))))
             ps)"
proof -
  have ok: "\<not> jsle (ToNumber (Number (Num a))) (Num 0)"
           "\<not> jsgt (ToNumber (Number (Num a))) (balance user)"
    using assms(3-5) by (simp_all add: jsle_def jsgt_def)
  have sub: "jssub (balance user) (ToNumber (Number (Num a))) = Num (b - a)"
    using assms(3) by (simp add: jssub_def)
  have "users (snd (trade posId tradeId now auth mkt sd (Number (Num a)) d)) =
     users_set (user\<lparr>balance := Num (b - a)\<rparr>) (users d)"
    using trade_accepted_users [OF assms(1,2) ok assms(6), of posId tradeId now] sub by simp
  then show "getUser auth (snd (trade posId tradeId now auth mkt sd (Number (Num a)) d)) =
           Some (user\<lparr>balance := Num (b - a)\<rparr>)"
    by (intro getUser_after_set [OF assms(1)]) simp_all
  show "positions (snd (trade posId tradeId now auth mkt sd (Number (Num a)) d)) (uid user) =
     Some (upsert_position posId now (title market) mkt sd
             (if sd = ''YES'' then yes market else no market)
             (Math_floor (jsdiv (Num a)
                (jsdiv (Num (of_int (if sd = ''YES'' then yes market else no market))) (Num 100))))
             ps)"
    using trade_accepted_positions [OF assms(1,2) ok assms(6,7), of posId tradeId now] by simp
qed

lemma getUser_reprice [simp]: "getUser auth (reprice ms d) = getUser auth d"
  by (cases auth) (simp_all add: reprice_def getUser_def)

lemma positions_reprice [simp]: "positions (reprice ms d) = positions d"
  by (simp add: reprice_def)

lemma markets_reprice [simp]: "markets (reprice ms d) = ms"
  by (simp add: reprice_def)

text \<open>Two buys in a row on \<open>(mkt, sd)\<close> by a user who holds no position there.\<close>

lemma two_buys:
  assumes "getUser auth d = Some user"
      and "sd = ''YES'' \<or> sd = ''NO''"
      and "balance user = Num b" and "0 < a1" and "0 < a2" and "a1 + a2 \<le> b"
      and "markets_at m1 mkt = Some mk1" and "markets_at m2 mkt = Some mk2"
      and "p1 = (if sd = ''YES'' then yes mk1 else no mk1)"
      and "p2 = (if sd = ''YES'' then yes mk2 else no mk2)"
      and "s1 = Math_floor (jsdiv (Num a1) (jsdiv (Num (of_int p1)) (Num 100)))"
      and "s2 = Math_floor (jsdiv (Num a2) (jsdiv (Num (of_int p2)) (Num 100)))"
      and "positions d (uid user) = Some ps"
      and "find (\<lambda>q. marketId q = mkt \<and> side q = sd) ps = None"
  shows "\<exists>qs x. positions (snd (trade i2 t2 n2 auth mkt sd (Number (Num a2))
                  (reprice m2 (snd (trade i1 t1 n1 auth mkt sd (Number (Num a1))
                     (reprice m1 d)))))) (uid user) = Some qs
         \<and> find (\<lambda>q. marketId q = mkt \<and> side q = sd) qs = Some x
         \<and> shares x = jsadd s1 s2
         \<and> avg x = jsdiv (jsadd (jsmul (Num (of_int p1)) s1) (jsmul (Num (of_int p2)) s2))
                         (jsadd s1 s2)"
proof -
  let ?d1 = "snd (trade i1 t1 n1 auth mkt sd (Number (Num a1)) (reprice m1 d))"
  have le1: "a1 \<le> b" and le2: "a2 \<le> b - a1"
    using assms(4-6) by simp_all
  have u0: "getUser auth (reprice m1 d) = Some user" and ps0: "positions (reprice m1 d) (uid user) = Some ps"
    and mk0: "markets_at (markets (reprice m1 d)) mkt = Some mk1"
    using assms(1,7,13) by simp_all
  note first = trade_accepted_numeric [OF u0 assms(2,3,4) le1 mk0 ps0, of i1 t1 n1,
      folded assms(9), folded assms(11)]
  define user1 where "user1 = user\<lparr>balance := Num (b - a1)\<rparr>"
  define ps1 where "ps1 = upsert_position i1 n1 (title mk1) mkt sd p1 s1 ps"
  have u1: "getUser auth (reprice m2 ?d1) = Some user1" and b1: "balance user1 = Num (b - a1)"
    and ps1: "positions (reprice m2 ?d1) (uid user1) = Some ps1"
    and mk1: "markets_at (markets (reprice m2 ?d1)) mkt = Some mk2"
    using first assms(8) by (simp_all add: user1_def ps1_def)
  note second = trade_accepted_numeric(2) [OF u1 assms(2) b1 assms(5) le2 mk1 ps1, of i2 t2 n2,
      folded assms(10), folded assms(12)]
  have f1: "find (\<lambda>q. marketId q = mkt \<and> side q = sd) ps1 =
         Some \<lparr>pid = i1, marketId = mkt, ptitle = take 40 (title mk1), side = sd,
               shares = s1, avg = Num (of_int p1), openedAt = n1\<rparr>"
    unfolding ps1_def by (rule find_upsert_position_new [OF assms(14)])
  note f2 = find_upsert_position_merge [OF f1, of i2 n2 "title mk2" p2 s2]
  show ?thesis
    using second f2 by (simp add: user1_def merge_position_def Let_def)
qed

text \<open>
  C4. A user without a position on \<open>(mkt, sd)\<close> buys twice there: \<open>a1\<close> when the price
  is \<open>p1\<close> and \<open>a2\<close> when it is \<open>p2\<close>, which grant \<open>s1\<close> and \<open>s2\<close> shares. The merged
  position has \<open>s1 + s2\<close> shares and the average cost \<open>(p1 * s1 + p2 * s2) / (s1 + s2)\<close>,
  which is \<open>(oldAvg * oldShares + price * shares) / (oldShares + shares)\<close> for the position
  the first buy opened. The two buys made in the other order, each at its own price, end
  with the same share count and the same average cost.
\<close>

theorem merged_avg_is_share_weighted_and_order_independent:
  assumes "getUser auth d = Some user"
      and "sd = ''YES'' \<or> sd = ''NO''"
      and "balance user = Num b" and "0 < a1" and "0 < a2" and "a1 + a2 \<le> b"
      and "markets_at m1 mkt = Some mk1" and "markets_at m2 mkt = Some mk2"
      and "p1 = (if sd = ''YES'' then yes mk1 else no mk1)"
      and "p2 = (if sd = ''YES'' then yes mk2 else no mk2)"
      and "s1 = Math_floor (jsdiv (Num a1) (jsdiv (Num (of_int p1)) (Num 100)))"
      and "s2 = Math_floor (jsdiv (Num a2) (jsdiv (Num (of_int p2)) (Num 100)))"
      and "positions d (uid user) = Some ps"
      and "find (\<lambda>q. marketId q = mkt \<and> side q = sd) ps = None"
  shows "\<exists>qs x qs' y.
           positions (snd (trade i2 t2 n2 auth mkt sd (Number (Num a2))
                  (reprice m2 (snd (trade i1 t1 n1 auth mkt sd (Number (Num a1))
                     (reprice m1 d)))))) (uid user) = Some qs
         \<and> find (\<lambda>q. marketId q = mkt \<and> side q = sd) qs = Some x
         \<and> positions (snd (trade i1 t1 n1 auth mkt sd (Number (Num a1))
                  (reprice m1 (snd (trade i2 t2 n2 auth mkt sd (Number (Num a2))
                     (reprice m2 d)))))) (uid user) = Some qs'
         \<and> find (\<lambda>q. marketId q = mkt \<and> side q = sd) qs' = Some y
         \<and> shares x = jsadd s1 s2
         \<and> avg x = jsdiv (jsadd (jsmul (Num (of_int p1)) s1) (jsmul (Num (of_int p2)) s2))
                         (jsadd s1 s2)
         \<and> shares y = shares x
         \<and> avg y = avg x"
proof -
  have swapped: "a2 + a1 \<le> b"
    using assms(6) by (simp add: add.commute)
  obtain qs x where 1:
    "positions (snd (trade i2 t2 n2 auth mkt sd (Number (Num a2))
                  (reprice m2 (snd (trade i1 t1 n1 auth mkt sd (Number (Num a1))
                     (reprice m1 d)))))) (uid user) = Some qs"
    "find (\<lambda>q. marketId q = mkt \<and> side q = sd) qs = Some x"
    "shares x = jsadd s1 s2"
    "avg x = jsdiv (jsadd (jsmul (Num (of_int p1)) s1) (jsmul (Num (of_int p2)) s2)) (jsadd s1 s2)"
    using two_buys [OF assms(1-6) assms(7,8) assms(9,10) assms(11,12) assms(13,14),
        of i2 t2 n2 i1 t1 n1]
    by blast
  obtain qs' y where 2:
    "positions (snd (trade i1 t1 n1 auth mkt sd (Number (Num a1))
                  (reprice m1 (snd (trade i2 t2 n2 auth mkt sd (Number (Num a2))
                     (reprice m2 d)))))) (uid user) = Some qs'"
    "find (\<lambda>q. marketId q = mkt \<and> side q = sd) qs' = Some y"
    "shares y = jsadd s2 s1"
    "avg y = jsdiv (jsadd (jsmul (Num (of_int p2)) s2) (jsmul (Num (of_int p1)) s1)) (jsadd s2 s1)"
    using two_buys [OF assms(1,2,3) assms(5,4) swapped assms(8,7) assms(10,9) assms(12,11)
        assms(13,14), of i1 t1 n1 i2 t2 n2]
    by blast
  have "shares y = shares x" and "avg y = avg x"
    using 1(3,4) 2(3,4)
    by (simp_all add: jsadd_commute [of s2 s1]
        jsadd_commute [of "jsmul (Num (of_int p2)) s2" "jsmul (Num (of_int p1)) s1"])
  then show ?thesis
    using 1 2 by blast
qed

text \<open>
  The witness: 20 spent at 50 cents and 5 spent at 25 cents, 40 and 20 shares, in either
  order 60 shares at an average cost of \<open>125 / 3\<close>.
\<close>

theorem merged_avg_is_share_weighted_and_order_independent_witness:
  "getUser (Some ''u1'') db1 = Some alice
   \<and> balance alice = Num 10000 \<and> (0::rat) < 20 \<and> (0::rat) < 5 \<and> (20::rat) + 5 \<le> 10000
   \<and> markets_at [market0] 0 = Some market0 \<and> markets_at [market0_at_25] 0 = Some market0_at_25
   \<and> positions db1 (uid alice) = Some []
   \<and> find (\<lambda>q. marketId q = 0 \<and> side q = ''YES'') [] = None
   \<and> (\<exists>qs x qs' y.
           positions (snd (trade ''p2'' ''t2'' 2 (Some ''u1'') 0 ''YES'' (Number (Num 5))
                  (reprice [market0_at_25] (snd (trade ''p1'' ''t1'' 1 (Some ''u1'') 0 ''YES''
                     (Number (Num 20)) (reprice [market0] db1)))))) (uid alice) = Some qs
         \<and> find (\<lambda>q. marketId q = 0 \<and> side q = ''YES'') qs = Some x
         \<and> positions (snd (trade ''p1'' ''t1'' 1 (Some ''u1'') 0 ''YES'' (Number (Num 20))
                  (reprice [market0] (snd (trade ''p2'' ''t2'' 2 (Some ''u1'') 0 ''YES''
                     (Number (Num 5)) (reprice [market0_at_25] db1)))))) (uid alice) = Some qs'
         \<and> find (\<lambda>q. marketId q = 0 \<and> side q = ''YES'') qs' = Some y
         \<and> shares x = Num 60 \<and> avg x = Num (125 / 3)
         \<and> shares y = shares x \<and> avg y = avg x)"
proof -
  have h2: "''YES'' = ''YES'' \<or> ''YES'' = ''NO''" by simp
  have h3: "balance alice = Num 10000" by (simp add: alice_def)
  have h4: "(0::rat) < 20" and h5: "(0::rat) < 5" and h6: "(20::rat) + 5 \<le> 10000" by simp_all
  have h7: "markets_at [market0] 0 = Some market0"
    and h8: "markets_at [market0_at_25] 0 = Some market0_at_25"
    by (simp_all add: markets_at_def)
  have h9: "50 = (if ''YES'' = ''YES'' then yes market0 else no market0)"
    and h10: "25 = (if ''YES'' = ''YES'' then yes market0_at_25 else no market0_at_25)"
    by (simp_all add: market0_def market0_at_25_def)
  have h11: "Num 40 = Math_floor (jsdiv (Num 20) (jsdiv (Num (of_int 50)) (Num 100)))"
    and h12: "Num 20 = Math_floor (jsdiv (Num 5) (jsdiv (Num (of_int 25)) (Num 100)))"
    by simp_all
  have h13: "positions db1 (uid alice) = Some []"
    by (simp add: db1_eq alice_def)
  have h14: "find (\<lambda>q. marketId q = 0 \<and> side q = ''YES'') [] = None" by simp
  have avg: "jsdiv (jsadd (jsmul (Num (of_int 50)) (Num 40)) (jsmul (Num (of_int 25)) (Num 20)))
               (jsadd (Num 40) (Num 20)) = Num (125 / 3)"
    by simp
  show ?thesis
    using merged_avg_is_share_weighted_and_order_independent
            [OF getUser_db1 h2 h3 h4 h5 h6 h7 h8 h9 h10 h11 h12 h13 h14,
             of "''p2''" "''t2''" 2 "''p1''" "''t1''" 1]
          getUser_db1 h3 h7 h8 h13
    unfolding avg by simp
qed

section \<open>Invariants of runs\<close>

lemma set_users_set: "set (users_set u us) \<subseteq> insert u (set us)"
  by (induction us) auto

lemma set_update_first: "set (update_first P f xs) \<subseteq> set xs \<union> f ` set xs"
  by (induction xs) auto

lemma set_splice1: "set (splice1 i xs) \<subseteq> set xs"
  by (auto simp: splice1_def dest: in_set_takeD in_set_dropD)

lemma markets_at_mem: "markets_at ms i = Some m \<Longrightarrow> m \<in> set ms"
  by (auto simp: markets_at_def split: if_splits)

lemma getUser_mem: "getUser auth d = Some u \<Longrightarrow> u \<in> set (users d)"
  by (auto simp: getUser_def users_get_def find_Some_iff split: option.splits if_splits)

lemma whole_iff: "whole n \<longleftrightarrow> (\<exists>s. n = Num s \<and> 0 \<le> s \<and> s \<in> \<int>)"
  by (cases n) (auto simp: whole_def Ints_def)

lemma whole_add: "whole a \<Longrightarrow> whole b \<Longrightarrow> whole (jsadd a b)"
  by (auto simp: whole_iff)

lemma whole_fill:
  assumes "0 < a" and "0 < price"
  shows "whole (Math_floor (jsdiv (Num a) (jsdiv (Num (of_int price)) (Num 100))))"
proof -
  have "0 \<le> a / (of_int price / 100)"
    using assms by simp
  then have "0 \<le> \<lfloor>a / (of_int price / 100)\<rfloor>"
    by simp
  then show ?thesis
    using assms by (simp add: whole_iff)
qed

lemma position_ok_upsert_position:
  assumes "\<forall>p \<in> set ps. position_ok n p" and "whole sh" and "0 \<le> mkt" and "mkt < int n"
  shows "\<forall>p \<in> set (upsert_position newId now mtitle mkt sd price sh ps). position_ok n p"
proof (cases "find (\<lambda>p. marketId p = mkt \<and> side p = sd) ps")
  case None
  then show ?thesis
    using assms by (simp add: upsert_position_def position_ok_def)
next
  case (Some old)
  have "position_ok n (merge_position price sh q)" if "q \<in> set ps" for q
    using that assms(1,2) by (simp add: merge_position_def Let_def whole_add position_ok_def)
  then show ?thesis
    using Some assms(1) set_update_first [of "\<lambda>p. marketId p = mkt \<and> side p = sd"
        "merge_position price sh" ps]
    by (auto simp: upsert_position_def)
qed

lemma markets_at_bounds: "markets_at ms i = Some m \<Longrightarrow> 0 \<le> i \<and> i < int (length ms)"
  by (simp add: markets_at_def split: if_splits)

lemma sound_users:
  assumes "sound d" and "u \<in> set (users d)"
  shows "\<exists>b. balance u = Num b \<and> 0 \<le> b"
proof -
  have "cash_ok u"
    using assms by (simp add: sound_def)
  then show ?thesis
    by (cases "balance u") (simp_all add: cash_ok_def)
qed

lemma sound_positions:
  "sound d \<Longrightarrow> u \<in> set (users d) \<Longrightarrow> positions d (uid u) = Some ps \<Longrightarrow>
   \<forall>p \<in> set ps. position_ok (length (markets d)) p"
  by (auto simp: sound_def positions_of_def)

lemma sound_markets: "sound d \<Longrightarrow> markets_at (markets d) i = Some m \<Longrightarrow> price_ok m"
  by (auto simp: sound_def dest: markets_at_mem)

lemma side_price_positive:
  "price_ok m \<Longrightarrow> 0 < (if sd = ''YES'' then yes m else no m)"
  by (auto simp: price_ok_def)

text \<open>What one accepted request changes, as far as the invariant looks.\<close>

lemma soundI:
  assumes "sound d"
      and "users d' = users_set u' (users d)" and "cash_ok u'"
      and "\<forall>m \<in> set (markets d'). price_ok m" and "length (markets d') = length (markets d)"
      and "\<forall>i. i \<noteq> uid u' \<longrightarrow> positions d' i = positions d i"
      and "\<forall>p \<in> set (positions_of d' (uid u')). position_ok (length (markets d')) p"
  shows "sound d'"
proof -
  have users: "v = u' \<or> v \<in> set (users d)" if "v \<in> set (users d')" for v
    using that set_users_set [of u' "users d"] assms(2) by auto
  have 1: "cash_ok v" if "v \<in> set (users d')" for v
    using users [OF that] assms(1,3) by (auto simp: sound_def)
  have 3: "position_ok (length (markets d')) p"
    if "v \<in> set (users d')" and "p \<in> set (positions_of d' (uid v))" for v p
  proof (cases "uid v = uid u'")
    case True
    then show ?thesis using that(2) assms(7) by simp
  next
    case False
    then have "v \<in> set (users d)" and "positions_of d' (uid v) = positions_of d (uid v)"
      using users [OF that(1)] assms(6) by (auto simp: positions_of_def)
    then show ?thesis using that(2) assms(1,5) by (auto simp: sound_def)
  qed
  show ?thesis
    using 1 3 assms(4) by (simp add: sound_def)
qed

lemma trade_cases:
  "(\<exists>e. trade posId tradeId now auth mkt sd amount d = (Inl e, d)) \<or>
   (\<exists>user market. getUser auth d = Some user \<and> (sd = ''YES'' \<or> sd = ''NO'')
      \<and> \<not> jsle (ToNumber amount) (Num 0) \<and> \<not> jsgt (ToNumber amount) (balance user)
      \<and> markets_at (markets d) mkt = Some market)"
  by (simp add: trade_def Let_def split: option.splits)

lemma trade_accepted_markets:
  assumes "getUser auth d = Some user"
      and "sd = ''YES'' \<or> sd = ''NO''"
      and "\<not> jsle (ToNumber amount) (Num 0)" "\<not> jsgt (ToNumber amount) (balance user)"
      and "markets_at (markets d) mkt = Some market"
  shows "markets (snd (trade posId tradeId now auth mkt sd amount d)) =
     (markets d)[nat mkt := market\<lparr>vol := jsadd (vol market) (ToNumber amount),
                                    musers := musers market + 1\<rparr>]"
  using assms by (cases "sd = ''YES''") (simp_all add: trade_def Let_def)

lemma trade_accepted_positions_map:
  assumes "getUser auth d = Some user"
      and "sd = ''YES'' \<or> sd = ''NO''"
      and "\<not> jsle (ToNumber amount) (Num 0)" "\<not> jsgt (ToNumber amount) (balance user)"
      and "markets_at (markets d) mkt = Some market"
  shows "positions (snd (trade posId tradeId now auth mkt sd amount d)) =
     (case positions d (uid user) of
        None \<Rightarrow> positions d
      | Some ps \<Rightarrow>
          (positions d)(uid user \<mapsto>
             upsert_position posId now (title market) mkt sd
               (if sd = ''YES'' then yes market else no market)
               (Math_floor (jsdiv (ToNumber amount)
                  (jsdiv (Num (of_int (if sd = ''YES'' then yes market else no market)))
                         (Num 100))))
               ps))"
  using assms
  by (cases "sd = ''YES''") (simp_all add: trade_def Let_def cong: option.case_cong)

lemma accepted_amount_finite:
  assumes "n \<noteq> NaN" and "\<not> jsle n (Num 0)" and "\<not> jsgt n (Num b)"
  shows "\<exists>a. n = Num a \<and> 0 < a \<and> a \<le> b"
  using assms by (cases n) (auto simp: jsle_def jsgt_def)

lemma sound_trade:
  assumes "sound d" and "ToNumber amount \<noteq> NaN"
  shows "sound (snd (trade posId tradeId now auth mkt sd amount d))"
proof -
  consider (rejected) e where "trade posId tradeId now auth mkt sd amount d = (Inl e, d)"
    | (accepted) user market where "getUser auth d = Some user" "sd = ''YES'' \<or> sd = ''NO''"
        "\<not> jsle (ToNumber amount) (Num 0)" "\<not> jsgt (ToNumber amount) (balance user)"
        "markets_at (markets d) mkt = Some market"
    using trade_cases [of posId tradeId now auth mkt sd amount d] by blast
  then show ?thesis
  proof cases
    case rejected
    then show ?thesis using assms(1) by simp
  next
    case accepted
    let ?d' = "snd (trade posId tradeId now auth mkt sd amount d)"
    let ?price = "if sd = ''YES'' then yes market else no market"
    have mem: "user \<in> set (users d)"
      using accepted(1) by (rule getUser_mem)
    obtain b where b: "balance user = Num b" "0 \<le> b"
      using sound_users [OF assms(1) mem] by blast
    obtain a where a: "ToNumber amount = Num a" "0 < a" "a \<le> b"
      using accepted_amount_finite [OF assms(2) accepted(3)] accepted(4) b(1) by auto
    define user' where "user' = user\<lparr>balance := jssub (balance user) (ToNumber amount)\<rparr>"
    have u: "users ?d' = users_set user' (users d)"
      unfolding user'_def by (rule trade_accepted_users [OF accepted])
    have c: "cash_ok user'"
      using a b by (simp add: user'_def cash_ok_def jssub_def)
    have pm: "price_ok market"
      using assms(1) accepted(5) by (rule sound_markets)
    have "price_ok m" if "m \<in> set (markets ?d')" for m
    proof -
      have "m \<in> insert (market\<lparr>vol := jsadd (vol market) (ToNumber amount),
                                    musers := musers market + 1\<rparr>) (set (markets d))"
        using that set_update_subset_insert [of "markets d" "nat mkt"]
        unfolding trade_accepted_markets [OF accepted] by blast
      then show ?thesis
        using pm assms(1) by (auto simp: price_ok_def sound_def)
    qed
    then have m: "\<forall>m \<in> set (markets ?d'). price_ok m" by blast
    have o: "\<forall>i. i \<noteq> uid user' \<longrightarrow> positions ?d' i = positions d i"
      unfolding trade_accepted_positions_map [OF accepted]
      by (simp add: user'_def split: option.splits)
    have sh: "whole (Math_floor (jsdiv (ToNumber amount) (jsdiv (Num (of_int ?price)) (Num 100))))"
      unfolding a(1) using a(2) side_price_positive [OF pm] by (rule whole_fill)
    have l: "length (markets ?d') = length (markets d)"
      unfolding trade_accepted_markets [OF accepted] by simp
    have p: "\<forall>p \<in> set (positions_of ?d' (uid user')). position_ok (length (markets ?d')) p"
    proof (cases "positions d (uid user)")
      case None
      then show ?thesis
        unfolding positions_of_def trade_accepted_positions_map [OF accepted]
        by (simp add: user'_def)
    next
      case (Some ps)
      have "\<forall>p \<in> set ps. position_ok (length (markets d)) p"
        using assms(1) mem Some by (rule sound_positions)
      then have "\<forall>p \<in> set (upsert_position posId now (title market) mkt sd ?price
               (Math_floor (jsdiv (ToNumber amount) (jsdiv (Num (of_int ?price)) (Num 100))))
               ps). position_ok (length (markets d)) p"
        using sh markets_at_bounds [OF accepted(5)] by (intro position_ok_upsert_position) simp_all
      then show ?thesis
        unfolding positions_of_def trade_accepted_positions_map [OF accepted] l
        by (simp add: user'_def Some)
    qed
    show ?thesis
      using assms(1) u c m l o p by (rule soundI)
  qed
qed

lemma sell_cases:
  "(\<exists>e. sell auth positionId d = (Inl e, d)) \<or>
   (\<exists>user ps idx market. getUser auth d = Some user \<and> positions d (uid user) = Some ps
      \<and> findIndex (\<lambda>q. pid q = positionId) ps = Some idx
      \<and> markets_at (markets d) (marketId (ps ! idx)) = Some market)"
  by (simp add: sell_def positions_of_def Let_def split: option.splits)

lemma sound_sell:
  assumes "sound d"
  shows "sound (snd (sell auth positionId d))"
proof -
  consider (rejected) e where "sell auth positionId d = (Inl e, d)"
    | (accepted) user ps idx market where "getUser auth d = Some user"
        "positions d (uid user) = Some ps"
        "findIndex (\<lambda>q. pid q = positionId) ps = Some idx"
        "markets_at (markets d) (marketId (ps ! idx)) = Some market"
    using sell_cases [of auth positionId d] by blast
  then show ?thesis
  proof cases
    case rejected
    then show ?thesis using assms by simp
  next
    case accepted
    let ?d' = "snd (sell auth positionId d)"
    let ?price = "if side (ps ! idx) = ''YES'' then yes market else no market"
    let ?payout = "jsmul (shares (ps ! idx)) (jsdiv (Num (of_int ?price)) (Num 100))"
    define user' where "user' = user\<lparr>balance := jsadd (balance user) ?payout,
        wins := (if jsgt (Num (of_int ?price)) (avg (ps ! idx)) then wins user + 1 else wins user),
        losses := (if jsgt (Num (of_int ?price)) (avg (ps ! idx)) then losses user
                   else losses user + 1)\<rparr>"
    note s = sell_accepted [OF accepted, folded user'_def]
    have mem: "user \<in> set (users d)"
      using accepted(1) by (rule getUser_mem)
    obtain b where b: "balance user = Num b" "0 \<le> b"
      using sound_users [OF assms mem] by blast
    have all: "\<forall>p \<in> set ps. position_ok (length (markets d)) p"
      using assms mem accepted(2) by (rule sound_positions)
    have "ps ! idx \<in> set ps"
      using findIndex_Some [OF accepted(3)] by simp
    then obtain n where n: "shares (ps ! idx) = Num n" "0 \<le> n"
      using all by (auto simp: whole_iff position_ok_def)
    have "0 < ?price"
      using sound_markets [OF assms accepted(4)] by (rule side_price_positive)
    then have "?payout = Num (n * (of_int ?price / 100))" and "0 \<le> n * (of_int ?price / 100)"
      using n by simp_all
    then have c: "cash_ok user'"
      using b by (simp add: user'_def cash_ok_def)
    have u: "users ?d' = users_set user' (users d)"
      by (simp add: s)
    have m: "\<forall>m \<in> set (markets ?d'). price_ok m"
      using assms by (simp add: s sound_def)
    have o: "\<forall>i. i \<noteq> uid user' \<longrightarrow> positions ?d' i = positions d i"
      by (simp add: s user'_def)
    have l: "length (markets ?d') = length (markets d)"
      by (simp add: s)
    have p: "\<forall>p \<in> set (positions_of ?d' (uid user')). position_ok (length (markets ?d')) p"
      using all set_splice1 [of idx ps] by (auto simp: s user'_def positions_of_def)
    show ?thesis
      using assms u c m l o p by (rule soundI)
  qed
qed

lemma register_cases:
  "(\<exists>e. register newId digest now uname mail pw d = (Inl e, d)) \<or>
   snd (register newId digest now uname mail pw d) =
     d\<lparr>users := users_set \<lparr>uid = newId, username = uname, email = mail, password = digest,
                             balance = Num 10000, created = now, wins = 0, losses = 0\<rparr> (users d),
       positions := (positions d)(newId \<mapsto> [])\<rparr>"
  by (simp add: register_def Let_def)

lemma sound_register:
  assumes "sound d"
  shows "sound (snd (register newId digest now uname mail pw d))"
proof -
  define u where "u = \<lparr>uid = newId, username = uname, email = mail, password = digest,
                        balance = Num 10000, created = now, wins = 0, losses = 0\<rparr>"
  consider (rejected) e where "register newId digest now uname mail pw d = (Inl e, d)"
    | (accepted) "snd (register newId digest now uname mail pw d) =
        d\<lparr>users := users_set u (users d), positions := (positions d)(newId \<mapsto> [])\<rparr>"
    using register_cases [of newId digest now uname mail pw d] unfolding u_def by blast
  then show ?thesis
  proof cases
    case rejected
    then show ?thesis using assms by simp
  next
    case accepted
    show ?thesis
    proof (rule soundI [OF assms, of _ u])
      show "users (snd (register newId digest now uname mail pw d)) = users_set u (users d)"
        by (simp add: accepted)
      show "cash_ok u"
        by (simp add: u_def cash_ok_def)
      show "\<forall>m \<in> set (markets (snd (register newId digest now uname mail pw d))). price_ok m"
        using assms by (simp add: accepted sound_def)
      show "length (markets (snd (register newId digest now uname mail pw d))) = length (markets d)"
        by (simp add: accepted)
      show "\<forall>i. i \<noteq> uid u \<longrightarrow>
              positions (snd (register newId digest now uname mail pw d)) i = positions d i"
        by (simp add: accepted u_def)
      show "\<forall>p \<in> set (positions_of (snd (register newId digest now uname mail pw d)) (uid u)).
              position_ok (length (markets (snd (register newId digest now uname mail pw d)))) p"
        by (simp add: accepted u_def positions_of_def)
    qed
  qed
qed

lemma sound_updatePrices:
  assumes "sound d"
  shows "sound (updatePrices now rnd d)"
proof -
  have "\<forall>m \<in> set (markets (updatePrices now rnd d)). price_ok m"
    using updatePrices_price_ok by blast
  moreover have "users (updatePrices now rnd d) = users d"
    and "positions_of (updatePrices now rnd d) = positions_of d"
    and "length (markets (updatePrices now rnd d)) = length (markets d)"
    by (simp_all add: updatePrices_def positions_of_def fun_eq_iff)
  ultimately show ?thesis
    using assms by (simp add: sound_def)
qed

lemma sound_step: "sound d \<Longrightarrow> amount_is_number r \<Longrightarrow> sound (step r d)"
  by (cases r) (simp_all add: sound_register sound_trade sound_sell sound_updatePrices)

lemma sound_run: "sound d \<Longrightarrow> \<forall>r \<in> set rs. amount_is_number r \<Longrightarrow> sound (run rs d)"
  by (induction rs arbitrary: d) (simp_all add: sound_step)

lemma sound_started: "\<forall>m \<in> set ms. price_ok m \<Longrightarrow> sound (started ms)"
  by (simp add: sound_def started_def)

text \<open>
  In a sound state every position of a user has its market: a sale of it does not throw.
\<close>

lemma sound_position_market:
  assumes "sound d" and "getUser auth d = Some user"
      and "positions d (uid user) = Some ps" and "pos \<in> set ps"
  shows "\<exists>market. markets_at (markets d) (marketId pos) = Some market"
proof -
  have "position_ok (length (markets d)) pos"
    using sound_positions [OF assms(1) getUser_mem [OF assms(2)] assms(3)] assms(4) by blast
  then show ?thesis
    by (simp add: position_ok_def markets_at_def)
qed

text \<open>
  With amounts that are numbers no balance ever leaves the non-negative finite numbers:
  the check of the trade handler keeps \<open>amount \<le> balance\<close> and a payout is not negative.
\<close>

lemma cash_stays_nonnegative_when_amounts_are_numbers:
  assumes "\<forall>m \<in> set ms. price_ok m" and "\<forall>r \<in> set rs. amount_is_number r"
      and "u \<in> set (users (run rs (started ms)))"
  shows "\<exists>b. balance u = Num b \<and> 0 \<le> b"
  using sound_users [OF sound_run [OF sound_started [OF assms(1)] assms(2)] assms(3)] .

text \<open>
  C3. The check \<open>amount <= 0 || amount > user.balance\<close> lets a body without \<open>amount\<close>
  through: both comparisons with \<open>undefined\<close> are false. The buy is accepted and
  \<open>user.balance -= amount\<close> stores NaN, which is not \<open>\<ge> 0\<close>.
\<close>

theorem buy_without_amount_makes_balance_NaN:
  "fst (trade ''p1'' ''t1'' 1 (Some ''u1'') 0 ''YES'' Undefined db1) =
     Inr \<lparr>tr_balance = NaN, tr_shares = NaN\<rparr>
   \<and> map balance (users (snd (trade ''p1'' ''t1'' 1 (Some ''u1'') 0 ''YES'' Undefined db1))) = [NaN]
   \<and> \<not> jsge NaN (Num 0)"
  by (simp add: trade_def db1_eq getUser_def users_get_def alice_def markets_at_def market0_def
      jsle_def jsge_def jsgt_def jssub_def Let_def)




section \<open>Leaderboard: properties\<close>

















text \<open>
  In a sound state, so in every state reached by requests whose amounts are numbers, the
  handler answers and all net worths are finite.
\<close>

lemma positions_value_finite:
  "\<forall>p \<in> set ps. position_ok (length ms) p \<Longrightarrow> \<exists>v. positions_value ms (Num a) ps = Inr (Num v)"
proof (induction ps arbitrary: a)
  case Nil
  then show ?case by simp
next
  case (Cons p ps)
  obtain s where s: "shares p = Num s"
    using Cons.prems by (auto simp: position_ok_def whole_iff)
  obtain m where m: "markets_at ms (marketId p) = Some m"
    using Cons.prems by (auto simp: position_ok_def markets_at_def)
  show ?case
    using Cons.IH [of "a + s * (of_int (if side p = ''YES'' then yes m else no m) / 100)"]
      Cons.prems s m
    by simp
qed

lemma leaderboard_entries_finite:
  assumes "sound d" and "set us \<subseteq> set (users d)"
  shows "\<exists>es. leaderboard_entries d us = Inr es \<and> (\<forall>e \<in> set es. finite_balance e)"
  using assms(2)
proof (induction us)
  case Nil
  then show ?case by simp
next
  case (Cons u us)
  have u: "u \<in> set (users d)" using Cons.prems by simp
  obtain b where b: "balance u = Num b"
    using sound_users [OF assms(1) u] by blast
  have "\<forall>p \<in> set (positions_of d (uid u)). position_ok (length (markets d)) p"
    using assms(1) u by (simp add: sound_def)
  then obtain v where v: "positions_value (markets d) (Num 0) (positions_of d (uid u)) = Inr (Num v)"
    using positions_value_finite by blast
  obtain es where es: "leaderboard_entries d us = Inr es" "\<forall>e \<in> set es. finite_balance e"
    using Cons by auto
  show ?case
    using b v es by (simp add: leaderboard_entry_def finite_balance_def)
qed

lemma leaderboard_answers_when_sound:
  assumes "sound d"
  shows "\<exists>rs es. leaderboard limit d = Inr rs \<and> leaderboard_entries d (users d) = Inr es
          \<and> (\<forall>e \<in> set es. finite_balance e)"
proof -
  obtain es where "leaderboard_entries d (users d) = Inr es" "\<forall>e \<in> set es. finite_balance e"
    using leaderboard_entries_finite [OF assms, of "users d"] by auto
  then show ?thesis
    by (simp add: leaderboard_def)
qed











end
